theory Spec2Isabelle
  imports Complex_Main "HOL-Library.AList"
begin

section \<open>Text\<close>

text \<open>
  Python strings are modelled as Isabelle strings, lists of 8-bit characters. The
  method language itself is ASCII; the decorative glyphs of the plan text are held as
  their UTF-8 bytes. Character classes are the ASCII ones.
\<close>

section \<open>The command splitter\<close>

text \<open>
  \<open>split_commands\<close> walks over the characters with three variables: the segments
  finished so far, the segment under construction and the signed parenthesis counter. The
  counter is updated before the comma test of the same character.
\<close>

type_synonym split_state = "string list \<times> string \<times> int"

definition split_step :: "split_state \<Rightarrow> char \<Rightarrow> split_state" where
  "split_step st c =
     (case st of (res, current, parens) \<Rightarrow>
        let parens' = (if c = CHR ''('' then parens + 1
                       else if c = CHR '')'' then parens - 1
                       else parens)
        in if c = CHR '','' \<and> parens' = 0
           then (res @ [current], [], parens')
           else (res, current @ [c], parens'))"

definition split_commands :: "string \<Rightarrow> string list" where
  "split_commands cmd_str =
     (case foldl split_step ([], [], 0) cmd_str of
        (res, current, parens) \<Rightarrow> if current \<noteq> [] then res @ [current] else res)"

text \<open>The parenthesis depth of a text: opening minus closing parentheses.\<close>

definition paren_delta :: "char \<Rightarrow> int" where
  "paren_delta c = (if c = CHR ''('' then 1 else if c = CHR '')'' then - 1 else 0)"

definition depth :: "string \<Rightarrow> int" where
  "depth s = sum_list (map paren_delta s)"

text \<open>A text has no top-level comma when every comma in it sits at a depth other than 0.\<close>

definition no_top_comma :: "string \<Rightarrow> bool" where
  "no_top_comma s = (\<forall>i < length s. s ! i = CHR '','' \<longrightarrow> depth (take i s) \<noteq> 0)"

section \<open>Regular expressions of the parser\<close>

text \<open>
  The parser uses three patterns of Python's \<open>re\<close> module. Each is a sequence of
  literals, capture groups holding one repeated character class, and one lookahead. The
  matcher below is the backtracking search of \<open>re\<close> on such a sequence: a greedy
  repetition tries the longest run first, a lazy one the shortest, and the first choice for
  which the rest of the pattern matches wins.
\<close>

datatype error =
    ValueError | ZeroDivisionError | NameError string | UnboundLocalError string
  | DeviceError string

datatype cls = Word | AnyChar | NotChar char

definition is_word :: "char \<Rightarrow> bool" where
  "is_word c \<longleftrightarrow>
     c \<in> set ''abcdefghijklmnopqrstuvwxyzABCDEFGHIJKLMNOPQRSTUVWXYZ0123456789_''"

fun cls_ok :: "cls \<Rightarrow> char \<Rightarrow> bool" where
  "cls_ok Word c = is_word c"
| "cls_ok AnyChar c = (c \<noteq> CHR 0x0A)"
| "cls_ok (NotChar x) c = (c \<noteq> x)"

datatype atom =
    Lit string
  | Grp cls nat bool
  | AheadColonOrEnd

text \<open>
  \<open>Grp c n g\<close> is a capture group around class \<open>c\<close> repeated at least \<open>n\<close> times,
  greedy when \<open>g\<close> holds. \<open>AheadColonOrEnd\<close> is \<open>(?=:|$)\<close>; \<open>$\<close> also matches
  before a final line feed. The result of a match is the list of captured groups and the
  text after the match.
\<close>

function rx_match :: "atom list \<Rightarrow> string \<Rightarrow> string list \<Rightarrow> (string list \<times> string) option"
  and rx_try :: "atom list \<Rightarrow> string \<Rightarrow> string list \<Rightarrow> nat list \<Rightarrow> (string list \<times> string) option"
where
  "rx_match [] s caps = Some (caps, s)"
| "rx_match (Lit l # p) s caps =
     (if take (length l) s = l then rx_match p (drop (length l) s) caps else None)"
| "rx_match (AheadColonOrEnd # p) s caps =
     (if s = [] \<or> s = [CHR 0x0A] \<or> hd s = CHR '':'' then rx_match p s caps else None)"
| "rx_match (Grp c n g # p) s caps =
     (let m = length (takeWhile (cls_ok c) s)
      in rx_try p s caps (if g then rev [n..<Suc m] else [n..<Suc m]))"
| "rx_try p s caps [] = None"
| "rx_try p s caps (k # ks) =
     (case rx_match p (drop k s) (caps @ [take k s]) of
        Some r \<Rightarrow> Some r
      | None \<Rightarrow> rx_try p s caps ks)"
  by pat_completeness auto
termination
  by (relation "measures [\<lambda>x. case x of Inl (p, s, caps) \<Rightarrow> 2 * length p
                                     | Inr (p, s, caps, ks) \<Rightarrow> 2 * length p + 1,
                          \<lambda>x. case x of Inl (p, s, caps) \<Rightarrow> 0
                                     | Inr (p, s, caps, ks) \<Rightarrow> length ks]") auto

text \<open>
  \<open>re.findall\<close>: scan from the left; after a match continue behind it (one character
  further when the match was empty), otherwise move one character on.
\<close>

function findall :: "atom list \<Rightarrow> string \<Rightarrow> string list list" where
  "findall p s =
     (case rx_match p s [] of
        Some (caps, rest) \<Rightarrow>
          if length rest < length s then caps # findall p rest
          else caps # (case s of [] \<Rightarrow> [] | _ # t \<Rightarrow> findall p t)
      | None \<Rightarrow> (case s of [] \<Rightarrow> [] | _ # t \<Rightarrow> findall p t))"
  by pat_completeness auto
termination
  by (relation "measure (\<lambda>(p, s). length s)") auto

declare findall.simps [simp del]

definition repeat_pattern :: "atom list" where
  "repeat_pattern =
     [Lit ''REPEAT('', Grp Word 1 True, Lit ''){'', Grp AnyChar 0 False, Lit ''}'',
      AheadColonOrEnd]"

definition for_pattern :: "atom list" where
  "for_pattern =
     [Lit ''FOR_RANGEV('', Grp (NotChar (CHR '','')) 1 True, Lit '','',
      Grp (NotChar (CHR '','')) 1 True, Lit '','', Grp (NotChar (CHR '')'')) 1 True,
      Lit ''){'', Grp AnyChar 0 False, Lit ''}'']"

definition cmd_pattern :: "atom list" where
  "cmd_pattern = [Grp Word 1 True, Lit ''('', Grp AnyChar 0 True, Lit '')'']"

section \<open>The parser\<close>

datatype command = Mean string | Delay string | Outputs "(string \<times> string) list"

record for_loop =
  start :: string
  endv :: string
  step :: string
  commands :: "command list"

record repeat_block =
  repeats :: string
  for_loops :: "for_loop list"

type_synonym program = "repeat_block list"

text \<open>\<open>str.upper\<close> on ASCII letters; every other character is left as it is.\<close>

definition upper_char :: "char \<Rightarrow> char" where
  "upper_char c =
     (case map_of (zip ''abcdefghijklmnopqrstuvwxyz'' ''ABCDEFGHIJKLMNOPQRSTUVWXYZ'') c of
        Some u \<Rightarrow> u | None \<Rightarrow> c)"

definition upper :: "string \<Rightarrow> string" where
  "upper s = map upper_char s"

text \<open>\<open>pair.split('=', 1)\<close>: one piece without the separator, otherwise two.\<close>

definition split1 :: "char \<Rightarrow> string \<Rightarrow> string list" where
  "split1 sep s =
     (if sep \<in> set s
      then [takeWhile (\<lambda>c. c \<noteq> sep) s, drop 1 (dropWhile (\<lambda>c. c \<noteq> sep) s)]
      else [s])"

text \<open>
  The dictionary of an OUTPUT command keeps insertion order, and a repeated key
  overwrites the earlier value in place: an association list under \<open>AList.update\<close>.
  Unpacking \<open>key, val = ...\<close> raises ValueError unless there are exactly two pieces.
\<close>

fun parse_pairs :: "string list \<Rightarrow> (string \<times> string) list \<Rightarrow> error + (string \<times> string) list" where
  "parse_pairs [] outputs = Inr outputs"
| "parse_pairs (pair # pairs) outputs =
     (if CHR ''='' \<in> set pair
      then (case split1 (CHR ''='') pair of
              [key, val] \<Rightarrow> parse_pairs pairs (AList.update key val outputs)
            | _ \<Rightarrow> Inl ValueError)
      else parse_pairs pairs outputs)"

fun parse_commands :: "string list \<Rightarrow> command list \<Rightarrow> error + command list" where
  "parse_commands [] commands' = Inr commands'"
| "parse_commands (cmd # cmds) commands' =
     (case rx_match cmd_pattern cmd [] of
        None \<Rightarrow> parse_commands cmds commands'
      | Some (groups, rest) \<Rightarrow>
          (case groups of
             [g1, cmd_param] \<Rightarrow>
               let cmd_type = upper g1
               in if cmd_type = ''MEAN'' then parse_commands cmds (commands' @ [Mean cmd_param])
                  else if cmd_type = ''DELAY'' then parse_commands cmds (commands' @ [Delay cmd_param])
                  else if cmd_type = ''OUTPUT'' then
                    (case parse_pairs (split_commands cmd_param) [] of
                       Inl e \<Rightarrow> Inl e
                     | Inr outputs \<Rightarrow> parse_commands cmds (commands' @ [Outputs outputs]))
                  else parse_commands cmds commands'
           | _ \<Rightarrow> Inl ValueError))"

fun parse_for_blocks :: "string list list \<Rightarrow> for_loop list \<Rightarrow> error + for_loop list" where
  "parse_for_blocks [] for_list = Inr for_list"
| "parse_for_blocks (b # bs) for_list =
     (case b of
        [start_var, end_var, step_var, commands_str] \<Rightarrow>
          (case parse_commands (split_commands commands_str) [] of
             Inl e \<Rightarrow> Inl e
           | Inr cmds \<Rightarrow>
               parse_for_blocks bs
                 (for_list @ [\<lparr>start = start_var, endv = end_var, step = step_var,
                               commands = cmds\<rparr>]))
      | _ \<Rightarrow> Inl ValueError)"

fun parse_repeats :: "string list list \<Rightarrow> program \<Rightarrow> error + program" where
  "parse_repeats [] parsed = Inr parsed"
| "parse_repeats (m # ms) parsed =
     (case m of
        [repeat_var, inner_content] \<Rightarrow>
          (case parse_for_blocks (findall for_pattern inner_content) [] of
             Inl e \<Rightarrow> Inl e
           | Inr for_list \<Rightarrow>
               parse_repeats ms (parsed @ [\<lparr>repeats = repeat_var, for_loops = for_list\<rparr>]))
      | _ \<Rightarrow> Inl ValueError)"

definition strip_blanks :: "string \<Rightarrow> string" where
  "strip_blanks process_str =
     filter (\<lambda>c. c \<noteq> CHR 0x0A) (filter (\<lambda>c. c \<noteq> CHR '' '') process_str)"

definition parse_process :: "string \<Rightarrow> error + program" where
  "parse_process process_str =
     parse_repeats (findall repeat_pattern (strip_blanks process_str)) []"

section \<open>Bindings, built-in conversions and the instrument\<close>

text \<open>
  \<open>input_widgets\<close> maps a symbol to its entry widget; what the code reads from a widget
  is its text, so the bindings are a map from symbols to texts. Python's built-in
  conversions \<open>int\<close>, \<open>float\<close> and \<open>str\<close> are parameters of the model (\<open>None\<close> stands
  for the ValueError of a text that does not parse). Python floats are modelled by real
  numbers with exact arithmetic: rounding, overflow, infinities and NaN are outside
  the model.

  The environment also holds what the functions read from outside themselves: the module
  constant \<open>DEBUGGING\<close> (the source sets it to True), the transport \<open>self.device\<close>, and
  the two names that \<open>setVoltage\<close> and \<open>run_method\<close> use without binding them,
  \<open>V\<close> and \<open>continue_method\<close>. Neither is a local of an enclosing function, so Python looks
  both up among the module's globals; the source binds neither, which is the value
  \<open>None\<close> here. \<open>global_V\<close> is the text \<open>str\<close> gives for that global when it exists.
\<close>

type_synonym bindings = "string \<Rightarrow> string option"

record 'd env =
  DEBUGGING :: bool
  py_int :: "string \<Rightarrow> int option"
  py_float :: "string \<Rightarrow> real option"
  str_int :: "int \<Rightarrow> string"
  str_float :: "real \<Rightarrow> string"
  dev_write :: "'d \<Rightarrow> string \<Rightarrow> error + 'd"
  dev_read :: "'d \<Rightarrow> error + (string \<times> 'd)"
  global_V :: "string option"
  global_continue_method :: "bool option"

section \<open>The describer\<close>

datatype val = VStr string | VInt int | VFloat real

text \<open>\<open>get_val\<close>: the raw name without a widget, the raw text when the conversion raises.\<close>

definition get_val :: "'d env \<Rightarrow> bindings \<Rightarrow> string \<Rightarrow> val" where
  "get_val E input_widgets var =
     (case input_widgets var of
        None \<Rightarrow> VStr var
      | Some v \<Rightarrow>
          if CHR ''.'' \<in> set v
          then (case py_float E v of Some f \<Rightarrow> VFloat f | None \<Rightarrow> VStr v)
          else (case py_int E v of Some i \<Rightarrow> VInt i | None \<Rightarrow> VStr v))"

definition py_str :: "'d env \<Rightarrow> val \<Rightarrow> string" where
  "py_str E v = (case v of VStr s \<Rightarrow> s | VInt i \<Rightarrow> str_int E i | VFloat f \<Rightarrow> str_float E f)"

definition glyph_puzzle :: string where
  "glyph_puzzle = [CHR 0xF0, CHR 0x9F, CHR 0xA7, CHR 0xA9]"

definition glyph_repeat :: string where
  "glyph_repeat = [CHR 0xF0, CHR 0x9F, CHR 0x94, CHR 0x81]"

definition glyph_arrowhead :: string where
  "glyph_arrowhead = [CHR 0xE2, CHR 0x9E, CHR 0xA4]"

definition glyph_bullet :: string where
  "glyph_bullet = [CHR 0xE2, CHR 0x80, CHR 0xA2]"

definition glyph_arrow :: string where
  "glyph_arrow = [CHR 0xE2, CHR 0x86, CHR 0x92]"

fun join :: "string \<Rightarrow> string list \<Rightarrow> string" where
  "join sep [] = []"
| "join sep [x] = x"
| "join sep (x # y # ys) = x @ sep @ join sep (y # ys)"

definition describe_command :: "'d env \<Rightarrow> bindings \<Rightarrow> command \<Rightarrow> string" where
  "describe_command E input_widgets cmd =
     (case cmd of
        Mean param \<Rightarrow>
          ''      '' @ glyph_bullet @ '' MEAN('' @ param @ '') '' @ glyph_arrow @
          '' Average for '' @ py_str E (get_val E input_widgets param) @ '' repetitions''
      | Delay param \<Rightarrow>
          ''      '' @ glyph_bullet @ '' DELAY('' @ param @ '') '' @ glyph_arrow @
          '' Wait '' @ py_str E (get_val E input_widgets param) @ '' seconds''
      | Outputs outputs \<Rightarrow>
          ''      '' @ glyph_bullet @ '' OUTPUT('' @
          join '', '' (map (\<lambda>(k, v). k @ '' = '' @ v) outputs) @ '')'')"

definition describe_for_loop :: "'d env \<Rightarrow> bindings \<Rightarrow> for_loop \<Rightarrow> string list" where
  "describe_for_loop E input_widgets fl =
     [''  '' @ glyph_arrowhead @ '' FOR_RANGEV '' @
        start fl @ ''='' @ py_str E (get_val E input_widgets (start fl)) @ '', '' @
        endv fl @ ''='' @ py_str E (get_val E input_widgets (endv fl)) @ '', '' @
        step fl @ ''='' @ py_str E (get_val E input_widgets (step fl)),
      ''    {''] @
     map (describe_command E input_widgets) (commands fl) @
     [''    }'', []]"

definition describe_block :: "'d env \<Rightarrow> bindings \<Rightarrow> repeat_block \<Rightarrow> string list" where
  "describe_block E input_widgets rb =
     (glyph_repeat @ '' REPEAT ('' @ repeats rb @ '') '' @ glyph_arrow @ '' '' @
        py_str E (get_val E input_widgets (repeats rb)) @ '' times'') #
     concat (map (describe_for_loop E input_widgets) (for_loops rb))"

definition final_description :: "'d env \<Rightarrow> bindings \<Rightarrow> program \<Rightarrow> string" where
  "final_description E input_widgets parsed_process =
     join [CHR 0x0A]
       ([glyph_puzzle @ '' Process Description:'' @ [CHR 0x0A] @ replicate 40 (CHR ''-'')] @
        concat (map (describe_block E input_widgets) parsed_process) @
        [replicate 40 (CHR ''-'')])"

text \<open>
  \<open>describe_process\<close> prints the text and returns \<open>continue_method\<close>: True, or the
  operator's answer to the message box when one is shown. The text and the flag are the
  two components of the result.
\<close>

definition describe_process :: "'d env \<Rightarrow> bindings \<Rightarrow> program \<Rightarrow> bool \<Rightarrow> bool \<Rightarrow> string \<times> bool" where
  "describe_process E input_widgets parsed_process show_messagebox answer =
     (final_description E input_widgets parsed_process,
      if show_messagebox then answer else True)"

section \<open>Instrument primitives\<close>

text \<open>
  \<open>setVoltage\<close> formats the name \<open>V\<close>, not its parameter \<open>voltage\<close>.
\<close>

definition setVoltage :: "'d env \<Rightarrow> 'd \<Rightarrow> real \<Rightarrow> error + 'd" where
  "setVoltage E d voltage =
     (if DEBUGGING E then Inr d
      else (case global_V E of
              None \<Rightarrow> Inl (NameError ''V'')
            | Some v \<Rightarrow> dev_write E d (''SETE '' @ v)))"

definition is_space :: "char \<Rightarrow> bool" where
  "is_space c \<longleftrightarrow>
     c \<in> set [CHR 0x09, CHR 0x0A, CHR 0x0B, CHR 0x0C, CHR 0x0D,
               CHR 0x1C, CHR 0x1D, CHR 0x1E, CHR 0x1F, CHR 0x20]"

definition py_strip :: "string \<Rightarrow> string" where
  "py_strip s = rev (dropWhile is_space (rev (dropWhile is_space s)))"

text \<open>\<open>str.split(',')\<close>: every separator cuts; the empty text gives one empty field.\<close>

fun py_split :: "char \<Rightarrow> string \<Rightarrow> string list" where
  "py_split sep [] = [[]]"
| "py_split sep (c # cs) =
     (if c = sep then [] # py_split sep cs
      else (case py_split sep cs of f # fs \<Rightarrow> (c # f) # fs | [] \<Rightarrow> [[c]]))"

text \<open>
  \<open>readCurrent\<close>: when the response does not have two fields nothing assigns
  \<open>current\<close>, and \<open>return current\<close> raises UnboundLocalError. In debugging mode the
  response is the fixed pair 10, -2.
\<close>

definition readCurrent :: "'d env \<Rightarrow> 'd \<Rightarrow> error + (real \<times> 'd)" where
  "readCurrent E d =
     (if DEBUGGING E then Inr (10 * 10 powr (- 2), d)
      else (case dev_write E d ''READI'' of
              Inl e \<Rightarrow> Inl e
            | Inr d1 \<Rightarrow>
                (case dev_read E d1 of
                   Inl e \<Rightarrow> Inl e
                 | Inr (txt, d2) \<Rightarrow>
                     let response = py_split (CHR '','') (py_strip txt)
                     in if length response = 2
                        then (case py_float E (response ! 0) of
                                None \<Rightarrow> Inl ValueError
                              | Some value' \<Rightarrow>
                                  (case py_float E (response ! 1) of
                                     None \<Rightarrow> Inl ValueError
                                   | Some exp' \<Rightarrow> Inr (value' * 10 powr exp', d2)))
                        else Inl (UnboundLocalError ''current''))))"

section \<open>The execution engine\<close>

text \<open>
  The sweep generator \<open>frange\<close> is two while loops. A loop that does not end is the
  value \<open>None\<close>: with a step of 0 the second loop never leaves a start at or above stop.
\<close>

partial_function (option) frange_up :: "real \<Rightarrow> real \<Rightarrow> real \<Rightarrow> real list \<Rightarrow> real list option" where
  "frange_up x stop step' vals =
     (if x \<le> stop then frange_up (x + step') stop step' (vals @ [x]) else Some vals)"

partial_function (option) frange_down :: "real \<Rightarrow> real \<Rightarrow> real \<Rightarrow> real list \<Rightarrow> real list option" where
  "frange_down x stop step' vals =
     (if x \<ge> stop then frange_down (x + step') stop step' (vals @ [x]) else Some vals)"

definition frange :: "real \<Rightarrow> real \<Rightarrow> real \<Rightarrow> real list option" where
  "frange start' stop step' =
     (if step' > 0 then frange_up start' stop step' [] else frange_down start' stop step' [])"

text \<open>\<open>V_values\<close>: the direction test of \<open>task\<close> in front of \<open>frange\<close>.\<close>

definition V_values :: "real \<Rightarrow> real \<Rightarrow> real \<Rightarrow> real list option" where
  "V_values start_val end_val step_val =
     (if start_val < end_val then frange start_val end_val step_val
      else frange start_val end_val (- \<bar>step_val\<bar>))"

text \<open>Reading a bound number: the default without a widget, ValueError on a bad text.\<close>

definition lookup_int :: "'d env \<Rightarrow> bindings \<Rightarrow> string \<Rightarrow> int \<Rightarrow> error + int" where
  "lookup_int E input_widgets var dflt =
     (case input_widgets var of
        None \<Rightarrow> Inr dflt
      | Some txt \<Rightarrow> (case py_int E txt of None \<Rightarrow> Inl ValueError | Some n \<Rightarrow> Inr n))"

definition lookup_float :: "'d env \<Rightarrow> bindings \<Rightarrow> string \<Rightarrow> real \<Rightarrow> error + real" where
  "lookup_float E input_widgets var dflt =
     (case input_widgets var of
        None \<Rightarrow> Inr dflt
      | Some txt \<Rightarrow> (case py_float E txt of None \<Rightarrow> Inl ValueError | Some x \<Rightarrow> Inr x))"

text \<open>
  The pre-run pass over the program that computes \<open>total_steps\<close>. The float division
  raises ZeroDivisionError on a step of 0; \<open>int\<close> of the non-negative quotient is its floor.
\<close>

definition steps_in_loop :: "real \<Rightarrow> real \<Rightarrow> real \<Rightarrow> int" where
  "steps_in_loop start_val end_val step_val = \<lfloor>\<bar>end_val - start_val\<bar> / \<bar>step_val\<bar>\<rfloor> + 1"

fun count_for_loops :: "'d env \<Rightarrow> bindings \<Rightarrow> int \<Rightarrow> for_loop list \<Rightarrow> int \<Rightarrow> error + int" where
  "count_for_loops E input_widgets cycles_val [] total_steps = Inr total_steps"
| "count_for_loops E input_widgets cycles_val (fl # fls) total_steps =
     (case lookup_float E input_widgets (start fl) 0 of
        Inl e \<Rightarrow> Inl e
      | Inr start_val \<Rightarrow>
     (case lookup_float E input_widgets (endv fl) 1 of
        Inl e \<Rightarrow> Inl e
      | Inr end_val \<Rightarrow>
     (case lookup_float E input_widgets (step fl) (1 / 10) of
        Inl e \<Rightarrow> Inl e
      | Inr step_val \<Rightarrow>
          if \<bar>step_val\<bar> = 0 then Inl ZeroDivisionError
          else count_for_loops E input_widgets cycles_val fls
                 (total_steps + cycles_val * steps_in_loop start_val end_val step_val))))"

fun count_blocks :: "'d env \<Rightarrow> bindings \<Rightarrow> program \<Rightarrow> int \<Rightarrow> error + int" where
  "count_blocks E input_widgets [] total_steps = Inr total_steps"
| "count_blocks E input_widgets (rb # rbs) total_steps =
     (case lookup_int E input_widgets (repeats rb) 1 of
        Inl e \<Rightarrow> Inl e
      | Inr cycles_val \<Rightarrow>
          (case count_for_loops E input_widgets cycles_val (for_loops rb) total_steps of
             Inl e \<Rightarrow> Inl e
           | Inr total_steps' \<Rightarrow> count_blocks E input_widgets rbs total_steps'))"

text \<open>
  The state of a run: the transport, the CSV file (created with its header row, then one
  row per sample, flushed at once), the voltages that \<open>setVoltage\<close> has set, the values
  handed to the progress bar, and the step counter. A run ends normally, with an exception,
  or not at all; after a failed read the state of the transport is the one before the
  readings of that sample.
\<close>

record 'd run_state =
  device :: 'd
  csv_open :: bool
  csv_rows :: "(real \<times> real) list"
  setpoints :: "real list"
  progress :: "real list"
  step_counter :: int

datatype outcome = Done | Raised error | Hangs

text \<open>
  The command scan of one loop pass: the last MEAN and the last DELAY win. Each DELAY
  sleeps a tenth of its duration at once; \<open>time.sleep\<close> raises ValueError on a negative
  duration.
\<close>

fun scan_commands :: "'d env \<Rightarrow> bindings \<Rightarrow> command list \<Rightarrow> real \<Rightarrow> int \<Rightarrow> error + (real \<times> int)" where
  "scan_commands E input_widgets [] delay_val r_val = Inr (delay_val, r_val)"
| "scan_commands E input_widgets (Mean param # cmds) delay_val r_val =
     (case lookup_int E input_widgets param 1 of
        Inl e \<Rightarrow> Inl e
      | Inr r \<Rightarrow> scan_commands E input_widgets cmds delay_val r)"
| "scan_commands E input_widgets (Delay param # cmds) delay_val r_val =
     (case lookup_float E input_widgets param 1 of
        Inl e \<Rightarrow> Inl e
      | Inr dv \<Rightarrow>
          if dv * (1 / 10) < 0 then Inl ValueError
          else scan_commands E input_widgets cmds dv r_val)"
| "scan_commands E input_widgets (Outputs outputs # cmds) delay_val r_val =
     scan_commands E input_widgets cmds delay_val r_val"

text \<open>The readings of one sample: \<open>for _ in range(r_val)\<close>, a sleep before each read.\<close>

fun read_currents :: "'d env \<Rightarrow> nat \<Rightarrow> real \<Rightarrow> int \<Rightarrow> 'd \<Rightarrow> real list \<Rightarrow> error + (real list \<times> 'd)" where
  "read_currents E 0 delay_val r_val d currents = Inr (currents, d)"
| "read_currents E (Suc n) delay_val r_val d currents =
     (if delay_val / (2 * real_of_int r_val) < 0 then Inl ValueError
      else (case readCurrent E d of
              Inl e \<Rightarrow> Inl e
            | Inr (c, d') \<Rightarrow> read_currents E n delay_val r_val d' (currents @ [c])))"

text \<open>
  One sweep value: set the voltage, wait, read and average, write the row, advance the
  counter, report progress. The mean of an empty list of readings and a total of 0 steps
  raise ZeroDivisionError; the second one after the row has been written.
\<close>

definition sweep_point :: "'d env \<Rightarrow> int \<Rightarrow> real \<Rightarrow> int \<Rightarrow> 'd run_state \<Rightarrow> real \<Rightarrow> 'd run_state \<times> outcome" where
  "sweep_point E total_steps delay_val r_val st V =
     (case setVoltage E (device st) V of
        Inl e \<Rightarrow> (st, Raised e)
      | Inr d1 \<Rightarrow>
          let st1 = st\<lparr>device := d1, setpoints := setpoints st @ [V]\<rparr>
          in if delay_val / 2 < 0 then (st1, Raised ValueError)
             else (case read_currents E (nat r_val) delay_val r_val d1 [] of
                     Inl e \<Rightarrow> (st1, Raised e)
                   | Inr (currents, d2) \<Rightarrow>
                       if length currents = 0 then (st1\<lparr>device := d2\<rparr>, Raised ZeroDivisionError)
                       else
                         let I_mean = sum_list currents / real (length currents);
                             st2 = st1\<lparr>device := d2,
                                       csv_rows := csv_rows st1 @ [(V, I_mean)],
                                       step_counter := step_counter st1 + 1\<rparr>
                         in if total_steps = 0 then (st2, Raised ZeroDivisionError)
                            else (st2\<lparr>progress := progress st2 @
                                        [real_of_int (step_counter st2) / real_of_int total_steps]\<rparr>,
                                  Done)))"

fun sweep_values :: "'d env \<Rightarrow> int \<Rightarrow> real \<Rightarrow> int \<Rightarrow> 'd run_state \<Rightarrow> real list \<Rightarrow> 'd run_state \<times> outcome" where
  "sweep_values E total_steps delay_val r_val st [] = (st, Done)"
| "sweep_values E total_steps delay_val r_val st (V # Vs) =
     (case sweep_point E total_steps delay_val r_val st V of
        (st', Done) \<Rightarrow> sweep_values E total_steps delay_val r_val st' Vs
      | (st', out) \<Rightarrow> (st', out))"

definition run_for_loop :: "'d env \<Rightarrow> bindings \<Rightarrow> int \<Rightarrow> 'd run_state \<Rightarrow> for_loop \<Rightarrow> 'd run_state \<times> outcome" where
  "run_for_loop E input_widgets total_steps st fl =
     (case lookup_float E input_widgets (start fl) 0 of
        Inl e \<Rightarrow> (st, Raised e)
      | Inr start_val \<Rightarrow>
     (case lookup_float E input_widgets (endv fl) 1 of
        Inl e \<Rightarrow> (st, Raised e)
      | Inr end_val \<Rightarrow>
     (case lookup_float E input_widgets (step fl) (1 / 10) of
        Inl e \<Rightarrow> (st, Raised e)
      | Inr step_val \<Rightarrow>
     (case scan_commands E input_widgets (commands fl) 0 1 of
        Inl e \<Rightarrow> (st, Raised e)
      | Inr (delay_val, r_val) \<Rightarrow>
     (case V_values start_val end_val step_val of
        None \<Rightarrow> (st, Hangs)
      | Some Vs \<Rightarrow> sweep_values E total_steps delay_val r_val st Vs)))))"

fun run_for_loops :: "'d env \<Rightarrow> bindings \<Rightarrow> int \<Rightarrow> 'd run_state \<Rightarrow> for_loop list \<Rightarrow> 'd run_state \<times> outcome" where
  "run_for_loops E input_widgets total_steps st [] = (st, Done)"
| "run_for_loops E input_widgets total_steps st (fl # fls) =
     (case run_for_loop E input_widgets total_steps st fl of
        (st', Done) \<Rightarrow> run_for_loops E input_widgets total_steps st' fls
      | (st', out) \<Rightarrow> (st', out))"

text \<open>\<open>for c in range(cycles_val)\<close>: each pass runs all loops of the block in order.\<close>

fun run_cycles :: "'d env \<Rightarrow> bindings \<Rightarrow> int \<Rightarrow> nat \<Rightarrow> for_loop list \<Rightarrow> 'd run_state \<Rightarrow> 'd run_state \<times> outcome" where
  "run_cycles E input_widgets total_steps 0 fls st = (st, Done)"
| "run_cycles E input_widgets total_steps (Suc n) fls st =
     (case run_for_loops E input_widgets total_steps st fls of
        (st', Done) \<Rightarrow> run_cycles E input_widgets total_steps n fls st'
      | (st', out) \<Rightarrow> (st', out))"

text \<open>
  The execution pass asks each block for \<open>repeat_block.get("repeat_var", "C")\<close>. The
  dictionaries built by \<open>parse_process\<close> have the keys \<open>repeats\<close> and \<open>for_loops\<close> and
  no key \<open>repeat_var\<close>, so the lookup returns its default.
\<close>

definition exec_repeat_var :: "repeat_block \<Rightarrow> string" where
  "exec_repeat_var rb = ''C''"

fun run_blocks :: "'d env \<Rightarrow> bindings \<Rightarrow> int \<Rightarrow> program \<Rightarrow> 'd run_state \<Rightarrow> 'd run_state \<times> outcome" where
  "run_blocks E input_widgets total_steps [] st = (st, Done)"
| "run_blocks E input_widgets total_steps (rb # rbs) st =
     (case lookup_int E input_widgets (exec_repeat_var rb) 1 of
        Inl e \<Rightarrow> (st, Raised e)
      | Inr cycles_val \<Rightarrow>
          (case run_cycles E input_widgets total_steps (nat cycles_val) (for_loops rb) st of
             (st', Done) \<Rightarrow> run_blocks E input_widgets total_steps rbs st'
           | (st', out) \<Rightarrow> (st', out)))"

text \<open>
  \<open>task\<close>: without a user, project or experiment name it warns and returns. Otherwise
  it shows the plan and stores the operator's answer in \<open>continue_method\<close>, which nothing
  reads afterwards; creates the CSV file; computes \<open>total_steps\<close>; runs the blocks; and sets
  the progress bar to 1.0. Folder and file operations are taken to succeed, and the plot
  is not modelled.
\<close>

definition initial_state :: "'d \<Rightarrow> 'd run_state" where
  "initial_state d =
     \<lparr>device = d, csv_open = False, csv_rows = [], setpoints = [], progress = [],
      step_counter = 0\<rparr>"

definition task :: "'d env \<Rightarrow> bindings \<Rightarrow> program \<Rightarrow> string \<Rightarrow> string \<Rightarrow> string \<Rightarrow> bool \<Rightarrow> 'd \<Rightarrow> 'd run_state \<times> outcome" where
  "task E input_widgets process_parsed user project experiment_entry answer d =
     (if user = [] \<or> project = [] \<or> py_strip experiment_entry = []
      then (initial_state d, Done)
      else
        let continue_method = snd (describe_process E input_widgets process_parsed True answer);
            st = (initial_state d)\<lparr>csv_open := True\<rparr>
        in (case count_blocks E input_widgets process_parsed 0 of
              Inl e \<Rightarrow> (st, Raised e)
            | Inr total_steps \<Rightarrow>
                (case run_blocks E input_widgets total_steps process_parsed st of
                   (st', Done) \<Rightarrow> (st'\<lparr>progress := progress st' @ [1]\<rparr>, Done)
                 | (st', out) \<Rightarrow> (st', out))))"

text \<open>
  \<open>run_method\<close>: looks the selected method up by name, parses its process text, tests
  \<open>continue_method\<close> and then starts \<open>task\<close> on a thread of its own; the result of
  that thread is the result here.
\<close>

definition run_method :: "'d env \<Rightarrow> (string \<times> string) list \<Rightarrow> string \<Rightarrow> bindings \<Rightarrow> string \<Rightarrow> string \<Rightarrow> string \<Rightarrow> bool \<Rightarrow> 'd \<Rightarrow> 'd run_state \<times> outcome" where
  "run_method E methods selected_name input_widgets user project experiment_entry answer d =
     (case map_of methods selected_name of
        None \<Rightarrow> (initial_state d, Done)
      | Some process \<Rightarrow>
          (case parse_process process of
             Inl e \<Rightarrow> (initial_state d, Raised e)
           | Inr process_parsed \<Rightarrow>
               (case global_continue_method E of
                  None \<Rightarrow> (initial_state d, Raised (NameError ''continue_method''))
                | Some continue_method \<Rightarrow>
                    if \<not> continue_method then (initial_state d, Done)
                    else task E input_widgets process_parsed user project experiment_entry
                           answer d)))"

section \<open>Concrete conversions and environments\<close>

text \<open>
  To run the model on concrete inputs the conversions are instantiated by readers of
  plain decimal numerals (an optional minus sign, digits, at most one point), on which
  they agree with Python's \<open>int\<close> and \<open>float\<close>.
\<close>

definition digit_val :: "char \<Rightarrow> nat option" where
  "digit_val c = map_of (zip ''0123456789'' [0, 1, 2, 3, 4, 5, 6, 7, 8, 9]) c"

fun digits_val :: "string \<Rightarrow> nat \<Rightarrow> nat option" where
  "digits_val [] acc = Some acc"
| "digits_val (c # cs) acc =
     (case digit_val c of None \<Rightarrow> None | Some v \<Rightarrow> digits_val cs (10 * acc + v))"

definition plain_nat :: "string \<Rightarrow> nat option" where
  "plain_nat s = (if s = [] then None else digits_val s 0)"

definition plain_int :: "string \<Rightarrow> int option" where
  "plain_int s =
     (case s of
        [] \<Rightarrow> None
      | c # cs \<Rightarrow> if c = CHR ''-'' then map_option (\<lambda>n. - int n) (plain_nat cs)
                  else map_option int (plain_nat s))"

definition plain_ufloat :: "string \<Rightarrow> real option" where
  "plain_ufloat s =
     (let ip = takeWhile (\<lambda>c. c \<noteq> CHR ''.'') s;
          fp = drop 1 (dropWhile (\<lambda>c. c \<noteq> CHR ''.'') s)
      in if ip @ fp = [] then None
         else map_option (\<lambda>n. real n / 10 ^ length fp) (digits_val (ip @ fp) 0))"

definition plain_float :: "string \<Rightarrow> real option" where
  "plain_float s =
     (case s of
        [] \<Rightarrow> None
      | c # cs \<Rightarrow> if c = CHR ''-'' then map_option uminus (plain_ufloat cs)
                  else plain_ufloat s)"

text \<open>
  The configuration of the source: debugging mode, no transport in use, neither global
  bound. Number formatting plays no part in a run.
\<close>

definition shipped_env :: "unit env" where
  "shipped_env =
     \<lparr>DEBUGGING = True, py_int = plain_int, py_float = plain_float,
      str_int = (\<lambda>i. []), str_float = (\<lambda>x. []),
      dev_write = (\<lambda>d s. Inr d), dev_read = (\<lambda>d. Inr ([], d)),
      global_V = None, global_continue_method = None\<rparr>"

text \<open>
  A live configuration: the transport state counts the setpoint commands it has accepted,
  fails on the one after \<open>n\<close> accepted ones, and answers every read request with
  \<open>1,0\<close>.
\<close>

definition live_env :: "nat \<Rightarrow> nat env" where
  "live_env n =
     \<lparr>DEBUGGING = False, py_int = plain_int, py_float = plain_float,
      str_int = (\<lambda>i. []), str_float = (\<lambda>x. []),
      dev_write = (\<lambda>d s. if take 4 s = ''SETE''
                           then (if d = n then Inl (DeviceError ''write failed'') else Inr (Suc d))
                           else Inr d),
      dev_read = (\<lambda>d. Inr (''1,0'', d)),
      global_V = Some ''0'', global_continue_method = Some True\<rparr>"

section \<open>Notions used in the statements about the parser\<close>

text \<open>The number of capture groups of a pattern.\<close>

definition ngroups :: "atom list \<Rightarrow> nat" where
  "ngroups p = length (filter (\<lambda>a. case a of Grp c n g \<Rightarrow> True | _ \<Rightarrow> False) p)"

text \<open>
  A source text of top-level blocks: each block is \<open>REPEAT(v){body}\<close>, and blocks are
  separated by a colon.
\<close>

definition repeat_text :: "string \<times> string \<Rightarrow> string" where
  "repeat_text b = ''REPEAT('' @ fst b @ ''){'' @ snd b @ ''}''"

definition program_text :: "(string \<times> string) list \<Rightarrow> string" where
  "program_text bs = join '':'' (map repeat_text bs)"

text \<open>
  How a parsed loop and a parsed block relate to the pattern match they come from: the
  symbols are the captured groups, a loop has at most one command per segment of its
  command text, and a block has one loop per FOR_RANGEV match in its body, in order.
\<close>

definition loop_of_match :: "string list \<Rightarrow> for_loop \<Rightarrow> bool" where
  "loop_of_match b fl =
     (case b of
        [start_var, end_var, step_var, commands_str] \<Rightarrow>
          start fl = start_var \<and> endv fl = end_var \<and> step fl = step_var \<and>
          length (commands fl) \<le> length (split_commands commands_str)
      | _ \<Rightarrow> False)"

definition block_of_match :: "string list \<Rightarrow> repeat_block \<Rightarrow> bool" where
  "block_of_match m rb =
     (case m of
        [repeat_var, inner_content] \<Rightarrow>
          repeats rb = repeat_var \<and>
          list_all2 loop_of_match (findall for_pattern inner_content) (for_loops rb)
      | _ \<Rightarrow> False)"

text \<open>
  A block whose name is a non-empty word and whose body holds neither the block separator
  nor a line feed.
\<close>

definition block_ok :: "string \<times> string \<Rightarrow> bool" where
  "block_ok b \<longleftrightarrow>
     fst b \<noteq> [] \<and> (\<forall>c \<in> set (fst b). is_word c) \<and> CHR '':'' \<notin> set (snd b) \<and>
     CHR 0x0A \<notin> set (snd b)"

section \<open>Notions used in the statements about a run\<close>









section \<open>Properties of the splitter\<close>

lemma depth_simps:
  "depth [] = 0" "depth (c # s) = paren_delta c + depth s" "depth (s @ t) = depth s + depth t"
  by (simp_all add: depth_def)

lemma split_step_plain:
  "\<not> (c = CHR '','' \<and> d = 0) \<Longrightarrow>
   split_step (res, cur, d) c = (res, cur @ [c], d + paren_delta c)"
  by (auto simp: split_step_def paren_delta_def Let_def)

lemma split_step_comma: "split_step (res, cur, 0) (CHR '','') = (res @ [cur], [], 0)"
  by (simp add: split_step_def)

lemma split_step_Cons:
  "split_step (r # res, cur, d) c =
     (case split_step (res, cur, d) c of (res', x) \<Rightarrow> (r # res', x))"
  by (simp add: split_step_def Let_def)

text \<open>Without a comma at counter value 0 the loop only extends the open segment.\<close>

lemma foldl_no_split:
  "(\<forall>i < length s. s ! i = CHR '','' \<longrightarrow> d + depth (take i s) \<noteq> 0) \<Longrightarrow>
   foldl split_step (res, cur, d) s = (res, cur @ s, d + depth s)"
proof (induction s arbitrary: cur d)
  case Nil
  then show ?case by (simp add: depth_simps)
next
  case (Cons c s)
  from Cons.prems [rule_format, of 0] have c: "\<not> (c = CHR '','' \<and> d = 0)"
    by (auto simp: depth_simps)
  have rest: "\<forall>i < length s. s ! i = CHR '','' \<longrightarrow> (d + paren_delta c) + depth (take i s) \<noteq> 0"
  proof (intro allI impI)
    fix i assume "i < length s" "s ! i = CHR '',''"
    with Cons.prems [rule_format, of "Suc i"] show "(d + paren_delta c) + depth (take i s) \<noteq> 0"
      by (simp add: depth_simps)
  qed
  show ?case
    using Cons.IH [OF rest] c by (simp add: split_step_plain depth_simps)
qed

lemma foldl_split_Cons:
  "foldl split_step (r # res, cur, d) q =
     (case foldl split_step (res, cur, d) q of (res', x) \<Rightarrow> (r # res', x))"
proof (induction q arbitrary: res cur d)
  case Nil
  show ?case by simp
next
  case (Cons c q)
  obtain res' cur' d' where s: "split_step (res, cur, d) c = (res', cur', d')"
    by (cases "split_step (res, cur, d) c") auto
  show ?case using Cons.IH [of res' cur' d'] by (simp add: split_step_Cons s)
qed

lemma split_commands_segment:
  assumes "no_top_comma s"
  shows "split_commands s = (if s = [] then [] else [s])"
  using foldl_no_split [of s 0 "[]" "[]"] assms
  by (simp add: split_commands_def no_top_comma_def)

lemma split_commands_cut:
  assumes "no_top_comma p" "depth p = 0"
  shows "split_commands (p @ CHR '','' # q) = p # split_commands q"
proof -
  have a: "foldl split_step ([], [], 0) p = ([], p, 0)"
    using foldl_no_split [of p 0 "[]" "[]"] assms by (simp add: no_top_comma_def)
  show ?thesis
    by (simp add: split_commands_def a split_step_comma foldl_split_Cons [of p "[]"]
        split: prod.splits)
qed

text \<open>
  C6. \<open>split_commands\<close> cuts exactly at the commas met while the signed parenthesis
  counter is 0: a text without such a comma is returned as one segment (none when it is
  empty, so whatever is open at the end of the text is emitted when non-empty, balanced or
  not); a text \<open>p,q\<close> whose first comma at counter 0 follows \<open>p\<close> yields \<open>p\<close> and then
  the segments of \<open>q\<close>; and the command list of the reference method splits into its three
  commands, the comma inside \<open>OUTPUT(...)\<close> being kept.
\<close>

theorem split_commands_top_level:
  "(no_top_comma s \<longrightarrow> split_commands s = (if s = [] then [] else [s])) \<and>
   (no_top_comma p \<and> depth p = 0 \<longrightarrow>
      split_commands (p @ CHR '','' # q) = p # split_commands q) \<and>
   split_commands ''MEAN(R),DELAY(D),OUTPUT(Vout=V,Iout=I)'' =
     [''MEAN(R)'', ''DELAY(D)'', ''OUTPUT(Vout=V,Iout=I)'']"
proof (intro conjI impI)
  assume "no_top_comma s"
  then show "split_commands s = (if s = [] then [] else [s])"
    by (rule split_commands_segment)
next
  assume "no_top_comma p \<and> depth p = 0"
  then show "split_commands (p @ CHR '','' # q) = p # split_commands q"
    by (simp add: split_commands_cut)
next
  show "split_commands ''MEAN(R),DELAY(D),OUTPUT(Vout=V,Iout=I)'' =
     [''MEAN(R)'', ''DELAY(D)'', ''OUTPUT(Vout=V,Iout=I)'']"
    by (simp add: split_commands_def split_step_def)
qed

theorem split_commands_top_level_witness:
  "no_top_comma ''F(A,B'' \<and> split_commands ''F(A,B'' = [''F(A,B''] \<and>
   no_top_comma ''F(A,B)'' \<and> depth ''F(A,B)'' = 0 \<and>
   split_commands ''F(A,B),G(C)'' = [''F(A,B)'', ''G(C)'']"
proof -
  have a: "no_top_comma ''F(A,B''"
    by (auto simp: no_top_comma_def depth_def paren_delta_def less_Suc_eq nth_Cons')
  have b: "no_top_comma ''F(A,B)''"
    by (auto simp: no_top_comma_def depth_def paren_delta_def less_Suc_eq nth_Cons')
  have c: "depth ''F(A,B)'' = 0"
    by (simp add: depth_def paren_delta_def)
  have d: "no_top_comma ''G(C)''"
    by (auto simp: no_top_comma_def depth_def paren_delta_def less_Suc_eq nth_Cons')
  from split_commands_top_level [of "''F(A,B''" "''F(A,B)''" "''G(C)''"] a b c
  have "split_commands ''F(A,B'' = [''F(A,B'']"
    and "split_commands ''F(A,B),G(C)'' = ''F(A,B)'' # split_commands ''G(C)''"
    by simp_all
  moreover from split_commands_top_level [of "''G(C)''" "[]" "[]"] d
  have "split_commands ''G(C)'' = [''G(C)'']" by simp
  ultimately show ?thesis using a b c by simp
qed

section \<open>Properties of the parser\<close>

lemma rx_caps_length:
  "rx_match p s caps = Some (g, r) \<Longrightarrow> length g = length caps + ngroups p"
  "rx_try p s caps ks = Some (g, r) \<Longrightarrow> length g = Suc (length caps) + ngroups p"
proof (induction p s caps and p s caps ks arbitrary: g r and g r rule: rx_match_rx_try.induct)
  case (1 s caps)
  then show ?case by (simp add: ngroups_def)
next
  case (2 l p s caps)
  then show ?case by (auto simp: ngroups_def split: if_splits)
next
  case (3 p s caps)
  then show ?case by (auto simp: ngroups_def split: if_splits)
next
  case (4 c n g p s caps)
  then show ?case by (auto simp: ngroups_def Let_def split: if_splits)
next
  case (5 p s caps)
  then show ?case by simp
next
  case (6 p s caps k ks)
  then show ?case by (auto split: option.splits)
qed

lemma findall_lengths: "\<forall>g \<in> set (findall p s). length g = ngroups p"
proof (induction "length s" arbitrary: s rule: less_induct)
  case less
  have tl: "\<forall>g \<in> set (case s of [] \<Rightarrow> [] | _ # t \<Rightarrow> findall p t). length g = ngroups p"
    using less by (cases s) auto
  show ?case
  proof (cases "rx_match p s []")
    case None
    with tl show ?thesis by (subst findall.simps) simp
  next
    case (Some a)
    obtain caps rest where a: "a = (caps, rest)" by (cases a)
    from rx_caps_length(1) [of p s "[]" caps rest] Some a
    have len: "length caps = ngroups p" by simp
    show ?thesis
    proof (cases "length rest < length s")
      case True
      with less [of rest] len Some a show ?thesis by (subst findall.simps) simp
    next
      case False
      with tl len Some a show ?thesis by (subst findall.simps) simp
    qed
  qed
qed

lemma split1_two: "sep \<in> set s \<Longrightarrow> \<exists>k v. split1 sep s = [k, v]"
  by (simp add: split1_def)

lemma parse_pairs_total: "\<exists>outs. parse_pairs ps acc = Inr outs"
proof (induction ps arbitrary: acc)
  case Nil
  show ?case by simp
next
  case (Cons pair ps)
  show ?case
  proof (cases "CHR ''='' \<in> set pair")
    case True
    then obtain k v where "split1 (CHR ''='') pair = [k, v]" using split1_two by blast
    with True Cons.IH [of "AList.update k v acc"] show ?thesis by simp
  next
    case False
    with Cons.IH [of acc] show ?thesis by simp
  qed
qed

lemma cmd_groups:
  assumes "rx_match cmd_pattern cmd [] = Some (g, r)"
  shows "\<exists>g1 g2. g = [g1, g2]"
proof -
  from rx_caps_length(1) [OF assms] have "length g = 2"
    by (simp add: ngroups_def cmd_pattern_def)
  then show ?thesis
    by (cases g; cases "tl g") auto
qed

lemma parse_commands_total:
  "\<exists>cs. parse_commands cmds acc = Inr cs \<and> length cs \<le> length acc + length cmds"
proof (induction cmds arbitrary: acc)
  case Nil
  show ?case by simp
next
  case (Cons cmd cmds)
  show ?case
  proof (cases "rx_match cmd_pattern cmd []")
    case None
    with Cons.IH [of acc] show ?thesis by auto
  next
    case (Some a)
    obtain g r where a: "a = (g, r)" by (cases a)
    from cmd_groups Some a obtain g1 g2 where g: "g = [g1, g2]" by blast
    obtain outs where outs: "parse_pairs (split_commands g2) [] = Inr outs"
      using parse_pairs_total by blast
    from Cons.IH [of acc] Cons.IH [of "acc @ [Mean g2]"] Cons.IH [of "acc @ [Delay g2]"]
      Cons.IH [of "acc @ [Outputs outs]"]
    show ?thesis using Some a g outs by (auto simp: Let_def)
  qed
qed


lemma parse_for_blocks_ok:
  assumes "\<forall>b \<in> set bs. length b = 4"
  shows "\<exists>fls. parse_for_blocks bs acc = Inr (acc @ fls) \<and> list_all2 loop_of_match bs fls"
  using assms
proof (induction bs arbitrary: acc)
  case Nil
  show ?case by simp
next
  case (Cons b bs)
  from Cons.prems have "length b = 4" by simp
  then obtain x1 x2 x3 x4 where b: "b = [x1, x2, x3, x4]"
    by (cases b; cases "tl b"; cases "tl (tl b)"; cases "tl (tl (tl b))") auto
  obtain cs where cs: "parse_commands (split_commands x4) [] = Inr cs"
      "length cs \<le> length (split_commands x4)"
    using parse_commands_total [of "split_commands x4" "[]"] by auto
  define fl where "fl = \<lparr>start = x1, endv = x2, step = x3, commands = cs\<rparr>"
  from Cons.IH [of "acc @ [fl]"] Cons.prems
  obtain fls where fls: "parse_for_blocks bs (acc @ [fl]) = Inr ((acc @ [fl]) @ fls)"
     "list_all2 loop_of_match bs fls"
    by auto
  have "loop_of_match b fl"
    by (simp add: loop_of_match_def b fl_def cs)
  with fls show ?case
    by (intro exI [of _ "fl # fls"]) (simp add: b cs fl_def)
qed

lemma parse_repeats_ok:
  assumes "\<forall>m \<in> set ms. length m = 2"
  shows "\<exists>bl. parse_repeats ms acc = Inr (acc @ bl) \<and> list_all2 block_of_match ms bl"
  using assms
proof (induction ms arbitrary: acc)
  case Nil
  show ?case by simp
next
  case (Cons m ms)
  from Cons.prems have "length m = 2" by simp
  then obtain x1 x2 where m: "m = [x1, x2]"
    by (cases m; cases "tl m") auto
  have "\<forall>b \<in> set (findall for_pattern x2). length b = 4"
    using findall_lengths [of for_pattern x2] by (simp add: ngroups_def for_pattern_def)
  from parse_for_blocks_ok [OF this, of "[]"]
  obtain fls where fls: "parse_for_blocks (findall for_pattern x2) [] = Inr fls"
     "list_all2 loop_of_match (findall for_pattern x2) fls" by auto
  define rb where "rb = \<lparr>repeats = x1, for_loops = fls\<rparr>"
  from Cons.IH [of "acc @ [rb]"] Cons.prems
  obtain bl where bl: "parse_repeats ms (acc @ [rb]) = Inr ((acc @ [rb]) @ bl)"
     "list_all2 block_of_match ms bl"
    by auto
  have "block_of_match m rb"
    by (simp add: block_of_match_def m rb_def fls)
  with bl show ?case
    by (intro exI [of _ "rb # bl"]) (simp add: m fls rb_def)
qed

lemma parse_process_ok:
  "\<exists>prog. parse_process s = Inr prog \<and>
     list_all2 block_of_match (findall repeat_pattern (strip_blanks s)) prog"
proof -
  have "\<forall>m \<in> set (findall repeat_pattern (strip_blanks s)). length m = 2"
    using findall_lengths [of repeat_pattern "strip_blanks s"]
    by (simp add: ngroups_def repeat_pattern_def)
  from parse_repeats_ok [OF this, of "[]"] show ?thesis
    by (simp add: parse_process_def)
qed

text \<open>
  C8. For every input text \<open>parse_process\<close> returns a program and raises nothing, and
  what it returns loses material only by omission: the blocks are, in order, the matches of
  the REPEAT pattern in the text without blanks (so text that matches nothing yields no
  block), each block's loops are the FOR_RANGEV matches of its body with at most one command
  per segment; a segment that is not of the form NAME(args) is dropped, a command whose name
  is none of MEAN, DELAY, OUTPUT is dropped, and an OUTPUT piece without \<open>=\<close> is dropped.
  The describer's value lookup raises nothing either: an unbound symbol is shown by its raw
  name, a text that does not convert by the raw text; so the line that describes a block with
  an unbound repeat symbol shows the symbol in place of the count.
\<close>

theorem parse_and_describe_never_raise:
  "(\<exists>prog. parse_process s = Inr prog \<and>
      list_all2 block_of_match (findall repeat_pattern (strip_blanks s)) prog) \<and>
   (rx_match cmd_pattern cmd [] = None \<longrightarrow>
      parse_commands (cmd # cmds) acc = parse_commands cmds acc) \<and>
   (rx_match cmd_pattern cmd [] = Some ([name, arg], r) \<and>
      upper name \<noteq> ''MEAN'' \<and> upper name \<noteq> ''DELAY'' \<and> upper name \<noteq> ''OUTPUT'' \<longrightarrow>
      parse_commands (cmd # cmds) acc = parse_commands cmds acc) \<and>
   (CHR ''='' \<notin> set pair \<longrightarrow> parse_pairs (pair # pairs) outs = parse_pairs pairs outs) \<and>
   (W v = None \<longrightarrow> get_val E W v = VStr v) \<and>
   (W v = Some t \<and> (if CHR ''.'' \<in> set t then py_float E t = None else py_int E t = None) \<longrightarrow>
      get_val E W v = VStr t) \<and>
   (W (repeats rb) = None \<longrightarrow>
      describe_block E W rb =
        (glyph_repeat @ '' REPEAT ('' @ repeats rb @ '') '' @ glyph_arrow @ '' '' @
           repeats rb @ '' times'') #
        concat (map (describe_for_loop E W) (for_loops rb)))"
  using parse_process_ok [of s]
  by (auto simp: Let_def get_val_def describe_block_def py_str_def)

lemma strip_blanks_idem: "strip_blanks (strip_blanks s) = strip_blanks s"
  by (induction s) (auto simp: strip_blanks_def)

text \<open>
  C9 (as amended). Parsing a text gives the same result as parsing the text with all
  space and line-feed characters removed; hence two texts that differ only in spaces and
  line feeds parse alike. Other white space is not removed.
\<close>

theorem parse_ignores_spaces_and_newlines:
  "parse_process (strip_blanks s) = parse_process s \<and>
   (strip_blanks s = strip_blanks t \<longrightarrow> parse_process s = parse_process t)"
  by (simp add: parse_process_def strip_blanks_idem)

theorem parse_ignores_spaces_and_newlines_witness:
  "strip_blanks (''REPEAT (C) {'' @ [CHR 0x0A] @ ''}'') = strip_blanks ''REPEAT(C){}'' \<and>
   parse_process (''REPEAT (C) {'' @ [CHR 0x0A] @ ''}'') = parse_process ''REPEAT(C){}''"
proof -
  have a: "strip_blanks (''REPEAT (C) {'' @ [CHR 0x0A] @ ''}'') = strip_blanks ''REPEAT(C){}''"
    by (simp add: strip_blanks_def)
  with parse_ignores_spaces_and_newlines
    [of "''REPEAT (C) {'' @ [CHR 0x0A] @ ''}''" "''REPEAT(C){}''"]
  show ?thesis by blast
qed

text \<open>
  C9 as stated fails: a tab is white space, and a tab inside the text changes the result.
\<close>

theorem parse_tab_counterexample:
  "parse_process (''REPEAT'' @ [CHR 0x09] @ ''(C){}'') \<noteq> parse_process ''REPEAT(C){}''"
  by code_simp

theorem parse_and_describe_never_raise_witness:
  "rx_match cmd_pattern ''junk'' [] = None \<and>
   parse_commands [''junk'', ''MEAN(R)''] [] = parse_commands [''MEAN(R)''] [] \<and>
   rx_match cmd_pattern ''BEEP(x)'' [] = Some ([''BEEP'', ''x''], []) \<and>
   upper ''BEEP'' \<noteq> ''MEAN'' \<and> upper ''BEEP'' \<noteq> ''DELAY'' \<and> upper ''BEEP'' \<noteq> ''OUTPUT'' \<and>
   parse_commands [''BEEP(x)'', ''MEAN(R)''] [] = parse_commands [''MEAN(R)''] [] \<and>
   CHR ''='' \<notin> set ''V'' \<and>
   parse_pairs [''V'', ''Iout=I''] [] = parse_pairs [''Iout=I''] [] \<and>
   (Map.empty :: bindings) ''N'' = None \<and>
   get_val shipped_env Map.empty ''N'' = VStr ''N'' \<and>
   [''N'' \<mapsto> ''abc''] ''N'' = Some ''abc'' \<and> py_int shipped_env ''abc'' = None \<and>
   get_val shipped_env [''N'' \<mapsto> ''abc''] ''N'' = VStr ''abc'' \<and>
   describe_block shipped_env Map.empty \<lparr>repeats = ''N'', for_loops = []\<rparr> =
     [glyph_repeat @ '' REPEAT (N) '' @ glyph_arrow @ '' N times'']"
proof -
  have a: "rx_match cmd_pattern ''junk'' [] = None"
    by (simp add: cmd_pattern_def is_word_def)
  have b: "rx_match cmd_pattern ''BEEP(x)'' [] = Some ([''BEEP'', ''x''], [])"
    by (simp add: cmd_pattern_def is_word_def)
  have c: "upper ''BEEP'' \<noteq> ''MEAN'' \<and> upper ''BEEP'' \<noteq> ''DELAY'' \<and> upper ''BEEP'' \<noteq> ''OUTPUT''"
    by (simp add: upper_def upper_char_def)
  have d: "py_int shipped_env ''abc'' = None"
    by (simp add: shipped_env_def plain_int_def plain_nat_def digit_val_def)
  note t1 = parse_and_describe_never_raise
    [of "[]" "''junk''" "[''MEAN(R)'']" "[]" "[]" "[]" "[]" "''V''" "[''Iout=I'']" "[]"
        Map.empty "''N''" shipped_env "[]" "\<lparr>repeats = ''N'', for_loops = []\<rparr>"]
  note t2 = parse_and_describe_never_raise
    [of "[]" "''BEEP(x)''" "[''MEAN(R)'']" "[]" "''BEEP''" "''x''" "[]" "''V''" "[''Iout=I'']" "[]"
        "[''N'' \<mapsto> ''abc'']" "''N''" shipped_env "''abc''"]
  from t1 a have 1: "parse_commands [''junk'', ''MEAN(R)''] [] = parse_commands [''MEAN(R)''] []"
    by blast
  from t2 b c have 2: "parse_commands [''BEEP(x)'', ''MEAN(R)''] [] = parse_commands [''MEAN(R)''] []"
    by blast
  from t1 have 3: "parse_pairs [''V'', ''Iout=I''] [] = parse_pairs [''Iout=I''] []"
    by simp
  from t1 have 4: "get_val shipped_env Map.empty ''N'' = VStr ''N''"
    by simp
  from t2 d have 5: "get_val shipped_env [''N'' \<mapsto> ''abc''] ''N'' = VStr ''abc''"
    by simp
  from t1 have 6: "describe_block shipped_env Map.empty \<lparr>repeats = ''N'', for_loops = []\<rparr> =
     [glyph_repeat @ '' REPEAT (N) '' @ glyph_arrow @ '' N times'']"
    by simp
  from a b c d 1 2 3 4 5 6 show ?thesis by simp
qed

section \<open>Top-level blocks\<close>

lemma rx_try_upt:
  assumes "a \<le> n" "n < b"
    and "\<forall>k. a \<le> k \<and> k < n \<longrightarrow> rx_match p (drop k s) (caps @ [take k s]) = None"
    and "rx_match p (drop n s) (caps @ [take n s]) = Some r"
  shows "rx_try p s caps [a..<b] = Some r"
  using assms
proof (induction "n - a" arbitrary: a)
  case 0
  then have "a = n" by simp
  with 0 show ?case by (simp add: upt_conv_Cons)
next
  case (Suc d)
  then have lt: "a < n" by simp
  with Suc.prems have none: "rx_match p (drop a s) (caps @ [take a s]) = None" by simp
  have "rx_try p s caps [Suc a..<b] = Some r"
    using Suc.hyps Suc.prems lt by (intro Suc.hyps(1)) auto
  with none lt Suc.prems show ?case by (simp add: upt_conv_Cons)
qed

lemma is_word_not_special:
  "is_word c \<Longrightarrow> c \<noteq> CHR '')'' \<and> c \<noteq> CHR '' '' \<and> c \<noteq> CHR 0x0A \<and> c \<noteq> CHR '':''"
  by (auto simp: is_word_def)

lemma body_candidate_fails:
  assumes "CHR '':'' \<notin> set body" "k < length body"
  shows "rx_match [Lit ''}'', AheadColonOrEnd] (drop k (body @ CHR ''}'' # rest)) caps = None"
proof -
  from assms(2) obtain c cs where d: "drop k body = c # cs"
    by (cases "drop k body") auto
  then have sub: "set (c # cs) \<subseteq> set body" by (metis set_drop_subset)
  have dk: "drop k (body @ CHR ''}'' # rest) = c # cs @ CHR ''}'' # rest"
    using assms(2) d by simp
  show ?thesis
  proof (cases cs)
    case Nil
    then show ?thesis unfolding dk by simp
  next
    case (Cons c' cs')
    with sub assms(1) have "c' \<noteq> CHR '':''" by auto
    with Cons show ?thesis unfolding dk by simp
  qed
qed

lemma lazy_body:
  assumes "CHR '':'' \<notin> set body" "CHR 0x0A \<notin> set body" "rest = [] \<or> hd rest = CHR '':''"
  shows "rx_match [Grp AnyChar 0 False, Lit ''}'', AheadColonOrEnd] (body @ CHR ''}'' # rest) caps
     = Some (caps @ [body], rest)"
proof -
  let ?s = "body @ CHR ''}'' # rest"
  have "takeWhile (cls_ok AnyChar) ?s = body @ takeWhile (cls_ok AnyChar) (CHR ''}'' # rest)"
    using assms(2) by (intro takeWhile_append2) auto
  then have len: "length body < Suc (length (takeWhile (cls_ok AnyChar) ?s))"
    by simp
  have fails: "\<forall>k. 0 \<le> k \<and> k < length body \<longrightarrow>
      rx_match [Lit ''}'', AheadColonOrEnd] (drop k ?s) (caps @ [take k ?s]) = None"
    using body_candidate_fails [OF assms(1)] by blast
  have ok: "rx_match [Lit ''}'', AheadColonOrEnd] (drop (length body) ?s)
      (caps @ [take (length body) ?s]) = Some (caps @ [body], rest)"
    using assms(3) by auto
  have "rx_try [Lit ''}'', AheadColonOrEnd] ?s caps
      [0..<Suc (length (takeWhile (cls_ok AnyChar) ?s))] = Some (caps @ [body], rest)"
    by (rule rx_try_upt [OF _ len fails ok]) simp
  then show ?thesis
    by (simp only: rx_match.simps Let_def if_False)
qed

lemma greedy_word:
  assumes "v \<noteq> []" "\<forall>c \<in> set v. is_word c"
    and "rx_match p (CHR '')'' # s) (caps @ [v]) = Some r"
  shows "rx_match (Grp Word 1 True # p) (v @ CHR '')'' # s) caps = Some r"
proof -
  have "\<not> is_word (CHR '')'')" by (simp add: is_word_def)
  then have tw: "takeWhile (cls_ok Word) (v @ CHR '')'' # s) = v"
    using assms(2) by (simp add: takeWhile_append2)
  from assms(1) have "[1..<Suc (length v)] = [1..<length v] @ [length v]"
    by (cases v) auto
  then have r: "rev [1..<Suc (length v)] = length v # rev [1..<length v]" by simp
  have "rx_try p (v @ CHR '')'' # s) caps (length v # rev [1..<length v]) = Some r"
    using assms(3) by simp
  then show ?thesis
    by (simp only: rx_match.simps Let_def tw r if_True)
qed

lemma repeat_match:
  assumes "v \<noteq> []" "\<forall>c \<in> set v. is_word c" "CHR '':'' \<notin> set body" "CHR 0x0A \<notin> set body"
    "rest = [] \<or> hd rest = CHR '':''"
  shows "rx_match repeat_pattern (repeat_text (v, body) @ rest) [] = Some ([v, body], rest)"
proof -
  have inner: "rx_match [Lit ''){'', Grp AnyChar 0 False, Lit ''}'', AheadColonOrEnd]
      (CHR '')'' # (CHR ''{'' # body @ CHR ''}'' # rest)) ([] @ [v]) = Some ([v, body], rest)"
    using lazy_body [OF assms(3,4,5), of "[v]"] by simp
  from greedy_word [OF assms(1,2) inner] show ?thesis
    by (simp add: repeat_pattern_def repeat_text_def)
qed

lemma repeat_pattern_no_match:
  "rx_match repeat_pattern [] [] = None" "rx_match repeat_pattern (CHR '':'' # t) [] = None"
  by (simp_all add: repeat_pattern_def)

lemma findall_blocks:
  assumes "\<forall>b \<in> set bs. block_ok b"
  shows "findall repeat_pattern (program_text bs) = map (\<lambda>b. [fst b, snd b]) bs"
  using assms
proof (induction bs rule: induct_list012)
  case 1
  show ?case by (simp add: program_text_def findall.simps [of _ "[]"] repeat_pattern_no_match)
next
  case (2 b)
  then have ok: "block_ok b" by simp
  from repeat_match [of "fst b" "snd b" "[]"] ok
  have m: "rx_match repeat_pattern (repeat_text b) [] = Some ([fst b, snd b], [])"
    by (simp add: block_ok_def)
  have ne: "repeat_text b \<noteq> []" by (simp add: repeat_text_def)
  show ?case
    using m ne
    by (simp add: program_text_def findall.simps [of _ "repeat_text b"]
        findall.simps [of _ "[]"] repeat_pattern_no_match)
next
  case (3 b b' bs)
  then have ok: "block_ok b" by simp
  let ?t = "program_text (b' # bs)"
  from repeat_match [of "fst b" "snd b" "'':'' @ ?t"] ok
  have m: "rx_match repeat_pattern (repeat_text b @ '':'' @ ?t) [] =
      Some ([fst b, snd b], '':'' @ ?t)"
    by (simp add: block_ok_def)
  have ih: "findall repeat_pattern ?t = map (\<lambda>b. [fst b, snd b]) (b' # bs)"
    using 3 by simp
  have ptext: "program_text (b # b' # bs) = repeat_text b @ '':'' @ ?t"
    by (simp add: program_text_def)
  have colon: "findall repeat_pattern ('':'' @ ?t) = findall repeat_pattern ?t"
    by (simp add: findall.simps [of _ "CHR '':'' # ?t"] repeat_pattern_no_match)
  have "findall repeat_pattern (repeat_text b @ '':'' @ ?t) =
      [fst b, snd b] # findall repeat_pattern ('':'' @ ?t)"
    using m by (subst findall.simps) (simp add: repeat_text_def)
  with colon ih ptext show ?case by simp
qed

lemma strip_blanks_append: "strip_blanks (s @ t) = strip_blanks s @ strip_blanks t"
  by (simp add: strip_blanks_def)

lemma strip_blanks_Cons:
  "strip_blanks (c # s) =
     (if c = CHR '' '' \<or> c = CHR 0x0A then strip_blanks s else c # strip_blanks s)"
  by (simp add: strip_blanks_def)

lemma strip_blanks_word: "\<forall>c \<in> set v. is_word c \<Longrightarrow> strip_blanks v = v"
  by (induction v) (auto simp: strip_blanks_Cons strip_blanks_def dest: is_word_not_special)

lemma strip_repeat_text:
  assumes "\<forall>c \<in> set (fst b). is_word c"
  shows "strip_blanks (repeat_text b) = repeat_text (fst b, strip_blanks (snd b))"
proof -
  have "strip_blanks ''REPEAT('' = ''REPEAT(''" "strip_blanks ''){'' = ''){''"
    "strip_blanks ''}'' = ''}''"
    by (simp_all add: strip_blanks_def)
  then show ?thesis
    unfolding repeat_text_def strip_blanks_append
    by (simp only: strip_blanks_word [OF assms] fst_conv snd_conv)
qed

lemma strip_program_text:
  "\<forall>b \<in> set bs. \<forall>c \<in> set (fst b). is_word c \<Longrightarrow>
   strip_blanks (program_text bs) = program_text (map (\<lambda>b. (fst b, strip_blanks (snd b))) bs)"
proof (induction bs rule: induct_list012)
  case 1
  show ?case by (simp add: program_text_def strip_blanks_def)
next
  case (2 b)
  then show ?case by (simp add: program_text_def strip_repeat_text)
next
  case (3 b b' bs)
  then have "strip_blanks (program_text (b' # bs)) =
     program_text (map (\<lambda>b. (fst b, strip_blanks (snd b))) (b' # bs))" by simp
  then show ?case using 3(3)
    by (simp add: program_text_def strip_blanks_append strip_repeat_text strip_blanks_Cons)
qed

lemma block_of_match_repeats:
  "list_all2 block_of_match ms prog \<Longrightarrow> map repeats prog = map (\<lambda>m. m ! 0) ms"
proof (induction rule: list_all2_induct)
  case Nil
  show ?case by simp
next
  case (Cons m ms rb prog)
  then show ?case
    by (auto simp: block_of_match_def split: list.splits)
qed

lemma parse_program_text:
  assumes "\<forall>b \<in> set bs. fst b \<noteq> [] \<and> (\<forall>c \<in> set (fst b). is_word c) \<and> CHR '':'' \<notin> set (snd b)"
  shows "\<exists>prog. parse_process (program_text bs) = Inr prog \<and> length prog = length bs \<and>
     map repeats prog = map fst bs"
proof -
  let ?bs = "map (\<lambda>b. (fst b, strip_blanks (snd b))) bs"
  have s: "strip_blanks (program_text bs) = program_text ?bs"
    using assms by (intro strip_program_text) auto
  have "\<forall>b \<in> set ?bs. block_ok b"
    using assms by (auto simp: block_ok_def strip_blanks_def)
  from findall_blocks [OF this]
  have f: "findall repeat_pattern (strip_blanks (program_text bs)) = map (\<lambda>b. [fst b, snd b]) ?bs"
    by (simp add: s)
  from parse_process_ok [of "program_text bs"] obtain prog where
    p: "parse_process (program_text bs) = Inr prog"
      "list_all2 block_of_match (map (\<lambda>b. [fst b, snd b]) ?bs) prog"
    by (auto simp: f)
  from p(2) have "length prog = length bs" by (auto dest: list_all2_lengthD)
  moreover from block_of_match_repeats [OF p(2)] have "map repeats prog = map fst bs"
    by (simp add: comp_def)
  ultimately show ?thesis using p(1) by blast
qed

text \<open>
  C7. A source text made of N top-level blocks \<open>REPEAT(v){body}\<close> separated by colons,
  each name a non-empty word and no body holding a colon, parses to a program of exactly N
  blocks whose repeat symbols are the names in source order. The reference method parses to
  one block with symbol C holding one loop over Vi, Vf, Vr with the commands Mean R,
  Delay D and Output \<open>{Vout: V, Iout: I}\<close>, in this order.
\<close>

theorem parse_blocks_in_order:
  "((\<forall>b \<in> set bs. fst b \<noteq> [] \<and> (\<forall>c \<in> set (fst b). is_word c) \<and> CHR '':'' \<notin> set (snd b)) \<longrightarrow>
      (\<exists>prog. parse_process (program_text bs) = Inr prog \<and> length prog = length bs \<and>
         map repeats prog = map fst bs)) \<and>
   parse_process ''REPEAT(C){FOR_RANGEV(Vi,Vf,Vr){MEAN(R),DELAY(D),OUTPUT(Vout=V,Iout=I)}}'' =
     Inr [\<lparr>repeats = ''C'',
           for_loops = [\<lparr>start = ''Vi'', endv = ''Vf'', step = ''Vr'',
                         commands = [Mean ''R'', Delay ''D'',
                                     Outputs [(''Vout'', ''V''), (''Iout'', ''I'')]]\<rparr>]\<rparr>]"
proof (intro conjI impI)
  assume "\<forall>b \<in> set bs. fst b \<noteq> [] \<and> (\<forall>c \<in> set (fst b). is_word c) \<and> CHR '':'' \<notin> set (snd b)"
  then show "\<exists>prog. parse_process (program_text bs) = Inr prog \<and> length prog = length bs \<and>
         map repeats prog = map fst bs"
    by (rule parse_program_text)
next
  show "parse_process ''REPEAT(C){FOR_RANGEV(Vi,Vf,Vr){MEAN(R),DELAY(D),OUTPUT(Vout=V,Iout=I)}}'' =
     Inr [\<lparr>repeats = ''C'',
           for_loops = [\<lparr>start = ''Vi'', endv = ''Vf'', step = ''Vr'',
                         commands = [Mean ''R'', Delay ''D'',
                                     Outputs [(''Vout'', ''V''), (''Iout'', ''I'')]]\<rparr>]\<rparr>]"
    by code_simp
qed

theorem parse_blocks_in_order_witness:
  "is_word (CHR ''C'') \<and> CHR '':'' \<notin> set ''FOR_RANGEV(Vi,Vf,Vr){MEAN(R)};'' \<and>
   is_word (CHR ''N'') \<and> is_word (CHR ''2'') \<and>
   program_text [(''C'', ''FOR_RANGEV(Vi,Vf,Vr){MEAN(R)};''), (''N2'', [])] =
     ''REPEAT(C){FOR_RANGEV(Vi,Vf,Vr){MEAN(R)};}:REPEAT(N2){}'' \<and>
   (\<exists>prog. parse_process ''REPEAT(C){FOR_RANGEV(Vi,Vf,Vr){MEAN(R)};}:REPEAT(N2){}'' = Inr prog \<and>
      length prog = 2 \<and> map repeats prog = [''C'', ''N2''])"
proof -
  let ?bs = "[(''C'', ''FOR_RANGEV(Vi,Vf,Vr){MEAN(R)};''), (''N2'', [])]"
  have h: "\<forall>b \<in> set ?bs.
      fst b \<noteq> [] \<and> (\<forall>c \<in> set (fst b). is_word c) \<and> CHR '':'' \<notin> set (snd b)"
    by (simp add: is_word_def)
  have t: "program_text ?bs = ''REPEAT(C){FOR_RANGEV(Vi,Vf,Vr){MEAN(R)};}:REPEAT(N2){}''"
    by (simp add: program_text_def repeat_text_def)
  from parse_blocks_in_order [of ?bs] h
  have "\<exists>prog. parse_process (program_text ?bs) = Inr prog \<and> length prog = length ?bs \<and>
         map repeats prog = map fst ?bs"
    by blast
  with h t show ?thesis by (simp add: numeral_2_eq_2)
qed

section \<open>The instrument reading, the sweep direction, the repeat count and the confirmation\<close>

text \<open>
  C10. Outside debugging mode, once the request has been written and a response read,
  \<open>readCurrent\<close> returns a number only when the stripped response splits at commas into
  exactly two fields, and the number is then value times 10 to the power exp; for every
  response with another number of fields it raises UnboundLocalError for \<open>current\<close>.
\<close>

theorem readCurrent_two_fields:
  "\<not> DEBUGGING E \<and> dev_write E d ''READI'' = Inr d1 \<and> dev_read E d1 = Inr (txt, d2) \<longrightarrow>
     (length (py_split (CHR '','') (py_strip txt)) \<noteq> 2 \<longrightarrow>
        readCurrent E d = Inl (UnboundLocalError ''current'')) \<and>
     (\<forall>c d'. readCurrent E d = Inr (c, d') \<longrightarrow>
        (\<exists>f1 f2 v x. py_split (CHR '','') (py_strip txt) = [f1, f2] \<and>
           py_float E f1 = Some v \<and> py_float E f2 = Some x \<and> c = v * 10 powr x))"
proof (intro impI, elim conjE)
  assume h: "\<not> DEBUGGING E" "dev_write E d ''READI'' = Inr d1" "dev_read E d1 = Inr (txt, d2)"
  let ?fs = "py_split (CHR '','') (py_strip txt)"
  show "(length ?fs \<noteq> 2 \<longrightarrow> readCurrent E d = Inl (UnboundLocalError ''current'')) \<and>
     (\<forall>c d'. readCurrent E d = Inr (c, d') \<longrightarrow>
        (\<exists>f1 f2 v x. ?fs = [f1, f2] \<and>
           py_float E f1 = Some v \<and> py_float E f2 = Some x \<and> c = v * 10 powr x))"
  proof (cases "length ?fs = 2")
    case False
    with h show ?thesis by (simp add: readCurrent_def Let_def)
  next
    case True
    then obtain f1 f2 where fs: "?fs = [f1, f2]"
      by (cases ?fs; cases "tl ?fs") auto
    with h show ?thesis
      by (auto simp: readCurrent_def Let_def split: option.splits)
  qed
qed

theorem readCurrent_two_fields_witness:
  "\<not> DEBUGGING (live_env 5) \<and> dev_write (live_env 5) 0 ''READI'' = Inr 0 \<and>
   dev_read (live_env 5) 0 = Inr (''1,0'', 0) \<and>
   readCurrent (live_env 5) 0 = Inr (1, 0) \<and>
   dev_read ((live_env 5)\<lparr>dev_read := \<lambda>d. Inr (''1,0,3'', d)\<rparr>) 0 = Inr (''1,0,3'', 0) \<and>
   readCurrent ((live_env 5)\<lparr>dev_read := \<lambda>d. Inr (''1,0,3'', d)\<rparr>) 0 =
     Inl (UnboundLocalError ''current'')"
proof -
  let ?E = "(live_env 5)\<lparr>dev_read := \<lambda>d. Inr (''1,0,3'', d)\<rparr>"
  have a: "\<not> DEBUGGING ?E" "dev_write ?E 0 ''READI'' = Inr 0" "dev_read ?E 0 = Inr (''1,0,3'', 0)"
    by (simp_all add: live_env_def)
  have b: "length (py_split (CHR '','') (py_strip ''1,0,3'')) \<noteq> 2"
    by (simp add: py_strip_def is_space_def)
  from readCurrent_two_fields [of ?E 0 0 "''1,0,3''" 0] a b
  have "readCurrent ?E 0 = Inl (UnboundLocalError ''current'')" by blast
  moreover have "readCurrent (live_env 5) 0 = Inr (1, 0)"
    by (simp add: readCurrent_def live_env_def py_strip_def is_space_def
        plain_float_def plain_ufloat_def digit_val_def)
  ultimately show ?thesis by (simp add: live_env_def)
qed

text \<open>
  C3 fails on the code: an ascending sweep hands the bound step to \<open>frange\<close> as it is,
  so a negative step from 0 to 1 produces no value at all, while the same magnitude with a
  positive sign produces the five values; only the descending branch takes the magnitude.
\<close>

theorem ascending_sweep_keeps_step_sign:
  "V_values 0 1 (- (1 / 4)) = Some [] \<and>
   V_values 0 1 (1 / 4) = Some [0, 1 / 4, 1 / 2, 3 / 4, 1] \<and>
   V_values 1 0 (- (1 / 4)) = Some [1, 3 / 4, 1 / 2, 1 / 4, 0] \<and>
   V_values 1 0 (1 / 4) = Some [1, 3 / 4, 1 / 2, 1 / 4, 0]"
  by (simp add: V_values_def frange_def frange_up.simps frange_down.simps)

lemmas run_eval =
  lookup_int_def lookup_float_def steps_in_loop_def
  plain_float_def plain_ufloat_def digit_val_def plain_int_def plain_nat_def
  task_def describe_process_def initial_state_def py_strip_def is_space_def exec_repeat_var_def
  run_for_loop_def V_values_def frange_def frange_up.simps frange_down.simps sweep_point_def
  setVoltage_def readCurrent_def powr_minus Let_def eval_nat_numeral

text \<open>
  C1 fails on the code: with the block's symbol N bound to 3 and C unbound, the pre-run
  pass counts three passes of three values (9 steps), but the execution pass reads C and
  makes one pass, so three rows are written.
\<close>

theorem repeat_count_read_from_C:
  "task shipped_env
     (map_of [(''N'', ''3''), (''Vi'', ''0''), (''Vf'', ''1''), (''Vr'', ''0.5'')])
     [\<lparr>repeats = ''N'',
       for_loops = [\<lparr>start = ''Vi'', endv = ''Vf'', step = ''Vr'', commands = [Mean ''R'']\<rparr>]\<rparr>]
     ''user'' ''project'' ''run'' True () =
   (\<lparr>device = (), csv_open = True,
     csv_rows = [(0, 1 / 10), (1 / 2, 1 / 10), (1, 1 / 10)],
     setpoints = [0, 1 / 2, 1],
     progress = [1 / 9, 2 / 9, 1 / 3, 1],
     step_counter = 3\<rparr>, Done)"
  by (simp add: shipped_env_def run_eval)

text \<open>
  C4 fails on the code: \<open>task\<close> asks for the confirmation and runs whatever the answer,
  so a declined run still creates the file, sets voltages and records samples; and the test
  in \<open>run_method\<close>, placed before the question is asked, reads a name that is not bound.
\<close>

theorem declined_run_still_executes:
  "task shipped_env (map_of [(''Vr'', ''0.5'')])
     [\<lparr>repeats = ''C'',
       for_loops = [\<lparr>start = ''Vi'', endv = ''Vf'', step = ''Vr'', commands = []\<rparr>]\<rparr>]
     ''user'' ''project'' ''run'' False () =
   (\<lparr>device = (), csv_open = True,
     csv_rows = [(0, 1 / 10), (1 / 2, 1 / 10), (1, 1 / 10)],
     setpoints = [0, 1 / 2, 1],
     progress = [1 / 3, 2 / 3, 1, 1],
     step_counter = 3\<rparr>, Done) \<and>
   run_method shipped_env [(''cv'', ''REPEAT(C){FOR_RANGEV(Vi,Vf,Vr){}}'')] ''cv''
     (map_of [(''Vr'', ''0.5'')]) ''user'' ''project'' ''run'' False () =
   (initial_state (), Raised (NameError ''continue_method''))"
proof -
  have "parse_process ''REPEAT(C){FOR_RANGEV(Vi,Vf,Vr){}}'' =
     Inr [\<lparr>repeats = ''C'',
       for_loops = [\<lparr>start = ''Vi'', endv = ''Vf'', step = ''Vr'', commands = []\<rparr>]\<rparr>]"
    by code_simp
  then have "run_method shipped_env [(''cv'', ''REPEAT(C){FOR_RANGEV(Vi,Vf,Vr){}}'')] ''cv''
     (map_of [(''Vr'', ''0.5'')]) ''user'' ''project'' ''run'' False () =
   (initial_state (), Raised (NameError ''continue_method''))"
    by (simp add: run_method_def shipped_env_def)
  then show ?thesis
    by (simp add: shipped_env_def run_eval)
qed

section \<open>Sweep lengths\<close>




section \<open>Invariants of a run\<close>






















section \<open>Failures and progress\<close>









end
